theory Spec2Isabelle
  imports Complex_Main
begin

section \<open>Numbers\<close>

text \<open>
  JavaScript numbers are idealised as real numbers: every constant of the source is a
  small integer and the claims are about exact geometry. \<open>Math.round\<close> rounds to the
  nearest integer, halves rounding up (towards plus infinity), which is
  \<open>\<lfloor>x + 1/2\<rfloor>\<close>. \<open>Math.max\<close> is \<open>max\<close>.
\<close>

type_synonym number = real

definition Math_round :: "number \<Rightarrow> number" where
  "Math_round x = of_int \<lfloor>x + 1 / 2\<rfloor>"

section \<open>Geometry model: fields, inputs, metrics\<close>

text \<open>
  A field of an input row. The source only asks whether a field is an instance of
  \<open>Blockly.FieldImage\<close> and, for the chosen one, its size; an image field carries its
  source name and its size (width, height).
\<close>

datatype field =
    FieldImage string number number
  | FieldLabel string
  | FieldTextInput string

fun isFieldImage :: "field \<Rightarrow> bool" where
  "isFieldImage (FieldImage _ _ _) = True"
| "isFieldImage _ = False"

text \<open>\<open>field.getSize()\<close>, read only for the icon: width and height of the image.\<close>

fun getSize :: "field \<Rightarrow> number \<times> number" where
  "getSize (FieldImage _ w h) = (w, h)"
| "getSize _ = (0, 0)"

datatype input_type = INPUT_VALUE | NEXT_STATEMENT | DUMMY_INPUT

record input =
  input_type :: input_type
  fieldRow :: "field list"

text \<open>
  The view of a block that rendering and the footprint query read: its size, its
  inputs, whether it has a previous and an output connection, and its next connection.
  \<open>nextConnection = None\<close> is a block without next connection,
  \<open>Some None\<close> an unconnected one, \<open>Some (Some b)\<close> one whose target block is \<open>b\<close>.
\<close>

datatype block = Block
  (height: number)
  (width: number)
  (inputList: "input list")
  (previousConnection: bool)
  (outputConnection: bool)
  (nextConnection: "block option option")

record metrics =
  hasStatement :: bool
  icon :: "field option"
  metrics_width :: number
  metrics_height :: number

subsection \<open>UI constants\<close>

definition SEP_SPACE_X :: number where "SEP_SPACE_X = 8"
definition SEP_SPACE_Y :: number where "SEP_SPACE_Y = 8"
definition NOTCH_HEIGHT :: number where "NOTCH_HEIGHT = 32"
definition CORNER_RADIUS :: number where "CORNER_RADIUS = 4"
definition HAT_CORNER_RADIUS :: number where "HAT_CORNER_RADIUS = 16"

lemmas ui_constants =
  SEP_SPACE_X_def SEP_SPACE_Y_def NOTCH_HEIGHT_def CORNER_RADIUS_def HAT_CORNER_RADIUS_def

subsection \<open>renderCompute\<close>

text \<open>
  The inner loop over \<open>input.fieldRow\<close>: every image field overwrites \<open>metrics.icon\<close>;
  there is no \<open>break\<close>.
\<close>

fun findIcon :: "field list \<Rightarrow> field option \<Rightarrow> field option" where
  "findIcon [] ic = ic"
| "findIcon (f # fs) ic = findIcon fs (if isFieldImage f then Some f else ic)"

text \<open>The outer loop over \<open>this.inputList\<close>.\<close>

fun renderCompute_loop :: "input list \<Rightarrow> metrics \<Rightarrow> metrics" where
  "renderCompute_loop [] m = m"
| "renderCompute_loop (inp # inps) m =
     renderCompute_loop inps
       (m\<lparr>hasStatement := (if input_type inp = NEXT_STATEMENT then True else hasStatement m),
          icon := findIcon (fieldRow inp) (icon m)\<rparr>)"

definition renderCompute :: "block \<Rightarrow> metrics" where
  "renderCompute b =
     (let m = renderCompute_loop (inputList b)
                \<lparr>hasStatement = False, icon = None, metrics_width = 0, metrics_height = 0\<rparr>;
          iconSize = (case icon m of Some f \<Rightarrow> getSize f | None \<Rightarrow> (0, 0))
      in m\<lparr>metrics_width := SEP_SPACE_X * 2 + fst iconSize,
            metrics_height := max (SEP_SPACE_Y * 2 + snd iconSize)
                                  (NOTCH_HEIGHT + 16 + CORNER_RADIUS * 2)\<rparr>)"

subsection \<open>The outline path\<close>

text \<open>
  The entries pushed on \<open>steps\<close>, joined by blanks, form the \<open>d\<close> attribute of an SVG
  path. Each constructor is one path command with its arguments: lower-case commands
  are relative to the current point, upper-case ones absolute. An arc keeps its radii,
  rotation and flags; only its end point moves the pen.
\<close>

datatype path_cmd =
    MoveRel number number
  | ArcAbs number number number bool bool number number
  | ArcRel number number number bool bool number number
  | VertAbs number
  | VertRel number
  | HorizAbs number
  | HorizRel number
  | LineRel "(number \<times> number) list"
  | ClosePath

definition NOTCH_PATH_DOWN :: path_cmd where
  "NOTCH_PATH_DOWN = LineRel [(8, 8), (0, 16), (-8, 8)]"

definition NOTCH_PATH_UP :: path_cmd where
  "NOTCH_PATH_UP = LineRel [(8, -8), (0, -16), (-8, -8)]"

definition TOP_LEFT_CORNER_START :: path_cmd where
  "TOP_LEFT_CORNER_START = MoveRel CORNER_RADIUS 0"

definition TOP_LEFT_CORNER :: path_cmd where
  "TOP_LEFT_CORNER = ArcAbs CORNER_RADIUS CORNER_RADIUS 0 False False 0 CORNER_RADIUS"

definition HAT_TOP_LEFT_CORNER_START :: path_cmd where
  "HAT_TOP_LEFT_CORNER_START = MoveRel HAT_CORNER_RADIUS 0"

definition HAT_TOP_LEFT_CORNER :: path_cmd where
  "HAT_TOP_LEFT_CORNER =
     ArcAbs HAT_CORNER_RADIUS HAT_CORNER_RADIUS 0 False False 0 HAT_CORNER_RADIUS"

lemmas path_constants =
  NOTCH_PATH_DOWN_def NOTCH_PATH_UP_def TOP_LEFT_CORNER_START_def TOP_LEFT_CORNER_def
  HAT_TOP_LEFT_CORNER_START_def HAT_TOP_LEFT_CORNER_def

text \<open>
  The four edge functions, each returning the commands it pushes. The repositioning
  of the previous and next connection done on the way does not touch \<open>steps\<close>.
\<close>

definition renderDrawLeft :: "block \<Rightarrow> metrics \<Rightarrow> path_cmd list" where
  "renderDrawLeft b m =
     (if previousConnection b then
        [TOP_LEFT_CORNER_START,
         TOP_LEFT_CORNER,
         VertAbs (metrics_height m - CORNER_RADIUS - 8 - NOTCH_HEIGHT),
         NOTCH_PATH_DOWN,
         VertAbs (metrics_height m - CORNER_RADIUS)]
      else
        [HAT_TOP_LEFT_CORNER_START,
         HAT_TOP_LEFT_CORNER,
         VertAbs (metrics_height m - HAT_CORNER_RADIUS)])"

definition statementRecess :: "path_cmd list" where
  "statementRecess =
     [HorizRel 8,
      ArcRel CORNER_RADIUS CORNER_RADIUS 0 False False CORNER_RADIUS (- CORNER_RADIUS),
      VertRel (- 8),
      NOTCH_PATH_UP,
      VertRel (- 50 + CORNER_RADIUS * 2 + NOTCH_HEIGHT + 8),
      ArcRel CORNER_RADIUS CORNER_RADIUS 0 False True CORNER_RADIUS (- CORNER_RADIUS),
      HorizRel (20 - CORNER_RADIUS * 2),
      ArcRel CORNER_RADIUS CORNER_RADIUS 0 False True CORNER_RADIUS CORNER_RADIUS,
      VertRel (50 - CORNER_RADIUS * 2 - NOTCH_HEIGHT - 8),
      NOTCH_PATH_DOWN,
      VertRel 8,
      ArcRel CORNER_RADIUS CORNER_RADIUS 0 False False CORNER_RADIUS CORNER_RADIUS]"

definition renderDrawBottom :: "block \<Rightarrow> metrics \<Rightarrow> path_cmd list" where
  "renderDrawBottom b m =
     (if previousConnection b
      then [ArcRel CORNER_RADIUS CORNER_RADIUS 0 False False CORNER_RADIUS CORNER_RADIUS]
      else [ArcRel HAT_CORNER_RADIUS HAT_CORNER_RADIUS 0 False False
              HAT_CORNER_RADIUS HAT_CORNER_RADIUS])
     @ (if hasStatement m then statementRecess else [])
     @ (if nextConnection b \<noteq> None
        then [HorizAbs (metrics_width m - CORNER_RADIUS)]
        else [HorizAbs (metrics_width m - HAT_CORNER_RADIUS)])"

definition renderDrawRight :: "block \<Rightarrow> metrics \<Rightarrow> path_cmd list" where
  "renderDrawRight b m =
     (if nextConnection b \<noteq> None
      then [ArcRel CORNER_RADIUS CORNER_RADIUS 0 False False CORNER_RADIUS (- CORNER_RADIUS)]
      else [ArcRel HAT_CORNER_RADIUS HAT_CORNER_RADIUS 0 False False
              HAT_CORNER_RADIUS (- HAT_CORNER_RADIUS)])
     @ [VertRel (- 8)]
     @ (if nextConnection b \<noteq> None
        then [NOTCH_PATH_UP, VertAbs CORNER_RADIUS]
        else [VertAbs HAT_CORNER_RADIUS])"

definition renderDrawTop :: "block \<Rightarrow> metrics \<Rightarrow> path_cmd list" where
  "renderDrawTop b m =
     (if nextConnection b \<noteq> None
      then [ArcRel CORNER_RADIUS CORNER_RADIUS 0 False False
              (- CORNER_RADIUS) (- CORNER_RADIUS)]
      else [ArcRel HAT_CORNER_RADIUS HAT_CORNER_RADIUS 0 False False
              (- HAT_CORNER_RADIUS) (- HAT_CORNER_RADIUS)])
     @ [ClosePath]"

text \<open>The path assembled by \<open>renderDraw_\<close>: left, bottom, right, top.\<close>

definition renderDraw_steps :: "block \<Rightarrow> metrics \<Rightarrow> path_cmd list" where
  "renderDraw_steps b m =
     renderDrawLeft b m @ renderDrawBottom b m @ renderDrawRight b m @ renderDrawTop b m"

text \<open>
  The icon positioned by \<open>renderDraw_\<close>: the \<open>translate\<close> set on the svg root of
  \<open>metrics.icon\<close>, if there is one. No other field is touched.
\<close>

definition renderDraw_icon :: "metrics \<Rightarrow> (field \<times> number \<times> number) list" where
  "renderDraw_icon m =
     (case icon m of
        None \<Rightarrow> []
      | Some f \<Rightarrow> [(f, metrics_width m - fst (getSize f) - SEP_SPACE_X / 2, SEP_SPACE_Y)])"

text \<open>\<open>render\<close>: the metrics of \<open>renderCompute_\<close> handed to \<open>renderDraw_\<close>.\<close>

definition render_steps :: "block \<Rightarrow> path_cmd list" where
  "render_steps b = renderDraw_steps b (renderCompute b)"

definition render_icon :: "block \<Rightarrow> (field \<times> number \<times> number) list" where
  "render_icon b = renderDraw_icon (renderCompute b)"

subsection \<open>The pen that follows a path\<close>

text \<open>
  The current point and the first point of the current subpath, as the SVG path
  grammar moves them. A path starts at the origin, so a leading relative \<open>m\<close> is an
  absolute one; \<open>z\<close> draws a straight line back to the first point of the subpath.
\<close>

record pen =
  cur :: "number \<times> number"
  start :: "number \<times> number"

fun shift :: "number \<times> number \<Rightarrow> number \<times> number \<Rightarrow> number \<times> number" where
  "shift (x, y) (dx, dy) = (x + dx, y + dy)"

fun exec :: "pen \<Rightarrow> path_cmd \<Rightarrow> pen" where
  "exec p (MoveRel dx dy) = (let q = shift (cur p) (dx, dy) in \<lparr>cur = q, start = q\<rparr>)"
| "exec p (ArcAbs rx ry rot large sweep x y) = p\<lparr>cur := (x, y)\<rparr>"
| "exec p (ArcRel rx ry rot large sweep dx dy) = p\<lparr>cur := shift (cur p) (dx, dy)\<rparr>"
| "exec p (VertAbs y) = p\<lparr>cur := (fst (cur p), y)\<rparr>"
| "exec p (VertRel dy) = p\<lparr>cur := shift (cur p) (0, dy)\<rparr>"
| "exec p (HorizAbs x) = p\<lparr>cur := (x, snd (cur p))\<rparr>"
| "exec p (HorizRel dx) = p\<lparr>cur := shift (cur p) (dx, 0)\<rparr>"
| "exec p (LineRel ds) = p\<lparr>cur := foldl shift (cur p) ds\<rparr>"
| "exec p ClosePath = p\<lparr>cur := start p\<rparr>"

definition run :: "path_cmd list \<Rightarrow> pen" where
  "run steps = foldl exec \<lparr>cur = (0, 0), start = (0, 0)\<rparr> steps"

fun isMove :: "path_cmd \<Rightarrow> bool" where
  "isMove (MoveRel _ _) = True"
| "isMove _ = False"

text \<open>
  A single closed contour: one move command, at the head; one close command, at the
  end; and the pen ends on the point where the move put it.
\<close>

definition single_closed_contour :: "path_cmd list \<Rightarrow> bool" where
  "single_closed_contour steps =
     (case steps of
        [] \<Rightarrow> False
      | c # rest \<Rightarrow>
          isMove c \<and> rest \<noteq> [] \<and> last rest = ClosePath
          \<and> filter (\<lambda>d. isMove d \<or> d = ClosePath) (butlast rest) = []
          \<and> cur (run steps) = cur (run [c]))"

text \<open>The image fields of a block in input order, then field order.\<close>

definition imageFields :: "block \<Rightarrow> field list" where
  "imageFields b = filter isFieldImage (concat (map fieldRow (inputList b)))"

definition firstOption :: "'a list \<Rightarrow> 'a option" where
  "firstOption xs = (case xs of [] \<Rightarrow> None | x # _ \<Rightarrow> Some x)"

definition lastOption :: "'a list \<Rightarrow> 'a option" where
  "lastOption xs = (if xs = [] then None else Some (last xs))"

section \<open>Footprint\<close>

text \<open>\<open>getNextBlock\<close>: the target block of the next connection, if both exist.\<close>

definition getNextBlock :: "block \<Rightarrow> block option" where
  "getNextBlock b = (case nextConnection b of None \<Rightarrow> None | Some target \<Rightarrow> target)"

lemma getNextBlock_size: "getNextBlock b = Some nextBlock \<Longrightarrow> size nextBlock < size b"
  by (cases b) (auto simp: getNextBlock_def split: option.splits)

text \<open>\<open>getHeightWidth\<close>, returning the pair (height, width).\<close>

function getHeightWidth :: "block \<Rightarrow> number \<times> number" where
  "getHeightWidth b =
     (case getNextBlock b of
        Some nextBlock \<Rightarrow>
          (let nextHeightWidth = getHeightWidth nextBlock
           in (height b + (fst nextHeightWidth - 4), max (width b) (snd nextHeightWidth)))
      | None \<Rightarrow>
          if nextConnection b = None \<and> \<not> outputConnection b
          then (height b + 2, width b)
          else (height b, width b))"
  by pat_completeness auto
termination
  by (relation "measure size") (auto dest: getNextBlock_size)

declare getHeightWidth.simps [simp del]

text \<open>The blocks chained below a block through next connections, the block first.\<close>

function stack :: "block \<Rightarrow> block list" where
  "stack b = b # (case getNextBlock b of Some nextBlock \<Rightarrow> stack nextBlock | None \<Rightarrow> [])"
  by pat_completeness auto
termination
  by (relation "measure size") (auto dest: getNextBlock_size)

declare stack.simps [simp del]

section \<open>Connections and placed blocks\<close>

text \<open>
  A connection: its identity, the block it belongs to, what \<open>isSuperior()\<close> answers
  for it, and its absolute position on the drawing surface.
\<close>

type_synonym block_id = nat

record connection =
  conn_id :: nat
  sourceBlock :: block_id
  superior :: bool
  conn_x :: number
  conn_y :: number

text \<open>
  Modelled from the spec: \<open>Blockly.Connection.prototype.moveBy\<close> is not in this file.
  A connection is repositioned whenever its block or an ancestor moves: its absolute
  position is translated by the offset.
\<close>

definition connection_moveBy :: "number \<Rightarrow> number \<Rightarrow> connection \<Rightarrow> connection" where
  "connection_moveBy dx dy c = c\<lparr>conn_x := conn_x c + dx, conn_y := conn_y c + dy\<rparr>"

record gridOptions =
  snap :: bool
  spacing :: number

text \<open>
  What this file reads of a workspace: \<open>options.gridOptions\<close> (which may be missing),
  the zoom scale and whether there is a trash can.
\<close>

record workspace =
  gridOptions :: "gridOptions option"
  scale :: number
  trashcan :: bool

text \<open>
  The fields of a live block object that placement and dragging read.
  \<open>workspace\<close> is \<open>None\<close> once the block is deleted; \<open>translate\<close> is the translation
  of the block's svg group relative to the group that holds it; \<open>connections\<close> is
  what \<open>getConnections_(false)\<close> returns, with absolute positions.
\<close>

record svg_block =
  workspace :: "workspace option"
  rendered :: bool
  isInFlyout :: bool
  movable :: bool
  deletable :: bool
  parentBlock :: "block_id option"
  translate :: "number \<times> number"
  connections :: "connection list"

text \<open>A block with the blocks attached under it (\<open>childBlocks_\<close>).\<close>

datatype block_tree = Node (self: svg_block) (childBlocks: "block_tree list")

text \<open>
  \<open>getRelativeToSurfaceXY\<close>: the loop adds the relative position of the block's group
  and of every group above it, up to the canvas. \<open>outer\<close> lists the relative positions
  of the groups above the block's own, nearest first; it is empty for a block without
  parent, whose group hangs on the canvas (\<open>initSvg\<close>, \<open>setParent\<close>).
\<close>

definition getRelativeToSurfaceXY :: "(number \<times> number) list \<Rightarrow> block_tree \<Rightarrow> number \<times> number" where
  "getRelativeToSurfaceXY outer t = foldl shift (0, 0) (translate (self t) # outer)"

text \<open>
  \<open>moveConnections_\<close>: nothing moves below a block that is not rendered. The icons'
  \<open>computeIconLocation\<close> does not touch connections.
\<close>

fun moveConnections :: "number \<Rightarrow> number \<Rightarrow> block_tree \<Rightarrow> block_tree" where
  "moveConnections dx dy (Node b children) =
     (if \<not> rendered b then Node b children
      else Node (b\<lparr>connections := map (connection_moveBy dx dy) (connections b)\<rparr>)
                (map (moveConnections dx dy) children))"

definition moveBy :: "(number \<times> number) list \<Rightarrow> number \<Rightarrow> number \<Rightarrow> block_tree \<Rightarrow> block_tree" where
  "moveBy outer dx dy t =
     (let xy = getRelativeToSurfaceXY outer t
      in moveConnections dx dy
           (Node ((self t)\<lparr>translate := (fst xy + dx, snd xy + dy)\<rparr>) (childBlocks t)))"

text \<open>Every connection of a block and of its descendants, the block's own first.\<close>

fun allConnections :: "block_tree \<Rightarrow> connection list" where
  "allConnections (Node b children) = connections b @ concat (map allConnections children)"

fun allRendered :: "block_tree \<Rightarrow> bool" where
  "allRendered (Node b children) = (rendered b \<and> list_all allRendered children)"

text \<open>The absolute positions of all these connections, in the same order.\<close>

definition positions :: "block_tree \<Rightarrow> (number \<times> number) list" where
  "positions t = map (\<lambda>c. (conn_x c, conn_y c)) (allConnections t)"

section \<open>Grid snapping\<close>

text \<open>
  Outcomes the model keeps apart from a normal return: a \<open>TypeError\<close> (a property read
  on \<open>null\<close>), a \<open>RangeError\<close> (calls nested deeper than the engine allows), and
  arithmetic that leaves the real numbers (\<open>NotANumber\<close>: with a spacing of zero the
  source divides by zero and goes on with \<open>NaN\<close>).
\<close>

datatype js_error = TypeError | RangeError | NotANumber

text \<open>
  \<open>snapToGrid\<close>, with the value of \<open>Blockly.dragMode_\<close> as first argument. A block
  that passes the \<open>getParent()\<close> check has no group above its own.
\<close>

definition snapToGrid :: "nat \<Rightarrow> block_tree \<Rightarrow> js_error + block_tree" where
  "snapToGrid mode t =
     (case workspace (self t) of
        None \<Rightarrow> Inr t
      | Some ws \<Rightarrow>
          if mode \<noteq> 0 then Inr t
          else if parentBlock (self t) \<noteq> None then Inr t
          else if isInFlyout (self t) then Inr t
          else (case gridOptions ws of
                  None \<Rightarrow> Inr t
                | Some g \<Rightarrow>
                    if \<not> snap g then Inr t
                    else if spacing g = 0 then Inl NotANumber
                    else
                      (let half = spacing g / 2;
                           xy = getRelativeToSurfaceXY [] t;
                           dx = Math_round ((fst xy - half) / spacing g) * spacing g + half - fst xy;
                           dy = Math_round ((snd xy - half) / spacing g) * spacing g + half - snd xy;
                           dx' = Math_round dx;
                           dy' = Math_round dy
                       in if dx' \<noteq> 0 \<or> dy' \<noteq> 0 then Inr (moveBy [] dx' dy' t) else Inr t)))"

text \<open>The grid point the source aims at, for a coordinate \<open>p\<close> and spacing \<open>s\<close>.\<close>

definition gridTarget :: "number \<Rightarrow> number \<Rightarrow> number" where
  "gridTarget s p = Math_round ((p - s / 2) / s) * s + s / 2"

section \<open>Drag controller\<close>

text \<open>
  What the handlers read of a pointer event: whether it is a right click, and what
  the workspace's \<open>isDeleteArea(e)\<close> answers for it.
\<close>

record pointer_event =
  rightButton :: bool
  overDeleteArea :: bool

text \<open>
  Calls that leave this file, kept as a log in the order they happen.
  \<open>Connect a b\<close> is \<open>a.connect(b)\<close>; \<open>ConnectRipple b\<close> is the ripple animation that
  \<open>connectionUiEffect\<close> starts on block \<open>b\<close>; \<open>FireResize\<close> is the resize event sent
  to the window; \<open>DragFinished b\<close> stands for the calls with which \<open>terminateDrag_\<close>
  closes a free drag of block \<open>b\<close> once it has rendered it (the deferred grid snap and
  neighbour bump, the resize and change events).
\<close>

datatype effect =
    Connect connection connection
  | PlayAudio block_id string
  | ConnectRipple block_id
  | TrashcanClose
  | TrashcanCloseLater
  | Highlight connection
  | Unhighlight connection
  | DragFinished block_id
  | Unplug block_id bool
  | DisposeAnimation block_id
  | Disposed block_id
  | FireResize

text \<open>
  The process-wide state: \<open>Blockly.selected\<close>, \<open>Blockly.highlightedConnection_\<close>,
  \<open>Blockly.localConnection_\<close>, \<open>Blockly.dragMode_\<close>, the two handler bindings (the block
  the handler is bound to), the block objects by identity, and the log.
  \<open>stackLimit\<close> is the number of nested calls the engine allows. The positions held in
  the block objects are not followed through a drag here.
\<close>

record blockly =
  selected :: "block_id option"
  highlightedConnection :: "connection option"
  localConnection :: "connection option"
  dragMode :: nat
  onMouseUpWrapper :: "block_id option"
  onMouseMoveWrapper :: "block_id option"
  blocks :: "block_id \<Rightarrow> svg_block"
  effects :: "effect list"
  stackLimit :: nat

definition emit :: "effect list \<Rightarrow> blockly \<Rightarrow> blockly" where
  "emit es s = s\<lparr>effects := effects s @ es\<rparr>"

text \<open>
  \<open>render\<close>, called without argument or with \<open>true\<close>: the block becomes rendered, its
  path is drawn, and the parent is rendered in turn, up to the top-most block, where the
  resize event is sent. Drawing writes to \<open>this.svgPath_\<close>, which \<open>dispose\<close> sets to
  \<open>null\<close> together with dropping the workspace: on a deleted block, one without
  workspace, it raises a \<open>TypeError\<close>. The first argument is the number of nested calls
  still allowed; a chain of parents longer than that ends in a \<open>RangeError\<close>.
\<close>

fun render :: "nat \<Rightarrow> block_id \<Rightarrow> blockly \<Rightarrow> js_error + blockly" where
  "render 0 b s = Inl RangeError"
| "render (Suc depth) b s =
     (case workspace (blocks s b) of
        None \<Rightarrow> Inl TypeError
      | Some ws \<Rightarrow>
          (let s1 = s\<lparr>blocks := (blocks s)(b := (blocks s b)\<lparr>rendered := True\<rparr>)\<rparr>
           in case parentBlock (blocks s1 b) of
                Some parent \<Rightarrow> render depth parent s1
              | None \<Rightarrow> Inr (emit [FireResize] s1)))"

text \<open>
  \<open>Blockly.BlockSvg.terminateDrag_\<close>. After a free drag the selected block is rendered
  and its workspace notified. Stopping the wiggle animation and setting the cursor
  change nothing that is modelled. Where the source calls \<open>Blockly.terminateDrag_\<close>,
  this function is meant.
\<close>

definition terminateDrag :: "blockly \<Rightarrow> js_error + blockly" where
  "terminateDrag s =
     (let s1 = s\<lparr>onMouseUpWrapper := None, onMouseMoveWrapper := None\<rparr>
      in if dragMode s1 = 2 then
           (case selected s1 of
              Some sel \<Rightarrow>
                (case render (stackLimit s1) sel s1 of
                   Inl err \<Rightarrow> Inl err
                 | Inr s2 \<Rightarrow> Inr ((emit [DragFinished sel] s2)\<lparr>dragMode := 0\<rparr>))
            | None \<Rightarrow> Inr (s1\<lparr>dragMode := 0\<rparr>))
         else Inr (s1\<lparr>dragMode := 0\<rparr>))"

text \<open>
  \<open>select\<close>: the block selected before is unselected, then this one is selected; both
  steps notify the canvas of the block's workspace.
\<close>

definition select :: "block_id \<Rightarrow> blockly \<Rightarrow> js_error + blockly" where
  "select this s =
     (case (case selected s of
              Some old \<Rightarrow>
                (case workspace (blocks s old) of
                   None \<Rightarrow> Inl TypeError
                 | Some ws \<Rightarrow> Inr (s\<lparr>selected := None\<rparr>))
            | None \<Rightarrow> Inr s) of
        Inl err \<Rightarrow> Inl err
      | Inr s1 \<Rightarrow>
          (case workspace (blocks s1 this) of
             None \<Rightarrow> Inl TypeError
           | Some ws \<Rightarrow> Inr (s1\<lparr>selected := Some this\<rparr>)))"

text \<open>\<open>onMouseDown_\<close>; \<open>movable\<close> is what \<open>isMovable()\<close> answers.\<close>

definition onMouseDown :: "block_id \<Rightarrow> pointer_event \<Rightarrow> blockly \<Rightarrow> js_error + blockly" where
  "onMouseDown this e s =
     (if isInFlyout (blocks s this) then Inr s
      else
        (case workspace (blocks s this) of
           None \<Rightarrow> Inl TypeError
         | Some ws \<Rightarrow>
             (case terminateDrag s of
                Inl err \<Rightarrow> Inl err
              | Inr s1 \<Rightarrow>
                  (case select this s1 of
                     Inl err \<Rightarrow> Inl err
                   | Inr s2 \<Rightarrow>
                       if rightButton e then Inr s2
                       else if \<not> movable (blocks s2 this) then Inr s2
                       else Inr (s2\<lparr>dragMode := 1,
                                    onMouseUpWrapper := Some this,
                                    onMouseMoveWrapper := Some this\<rparr>)))))"

text \<open>
  \<open>connectionUiEffect\<close>: the click sound, and the ripple unless the workspace is
  zoomed out below scale 1.
\<close>

definition connectionUiEffect :: "block_id \<Rightarrow> blockly \<Rightarrow> js_error + blockly" where
  "connectionUiEffect b s =
     (case workspace (blocks s b) of
        None \<Rightarrow> Inl TypeError
      | Some ws \<Rightarrow>
          Inr (emit (PlayAudio b ''click'' # (if scale ws < 1 then [] else [ConnectRipple b])) s))"

text \<open>
  Modelled from the spec: \<open>Blockly.Block.prototype.dispose\<close>, the base class's
  disposal that \<open>dispose\<close> calls, is not in this file. Disposal severs the hierarchy
  links of the block, and the guards of this file
  (\<open>if (!this.workspace) return;  // Deleted block.\<close>) show that it drops the
  workspace reference. What else it does to the process-wide state is left open.
\<close>

definition superClass_dispose :: "block_id \<Rightarrow> bool \<Rightarrow> blockly \<Rightarrow> blockly" where
  "superClass_dispose this healStack s =
     emit [Disposed this]
       (s\<lparr>blocks := (blocks s)
              (this := (blocks s this)\<lparr>workspace := None, parentBlock := None\<rparr>)\<rparr>)"

text \<open>
  \<open>dispose\<close>: the drag is terminated if the block is the selected one, the disposal
  animation is played if asked for, the block stops being rendered, and the base class
  takes it out of the hierarchy. (The change listener, the context menu, the icons and
  the svg nodes are not modelled.)
\<close>

definition dispose :: "block_id \<Rightarrow> bool \<Rightarrow> bool \<Rightarrow> blockly \<Rightarrow> js_error + blockly" where
  "dispose this healStack animate s =
     (case (if selected s = Some this then terminateDrag s else Inr s) of
        Inl err \<Rightarrow> Inl err
      | Inr s1 \<Rightarrow>
          (case (if animate \<and> rendered (blocks s1 this)
                 then (case workspace (blocks s1 this) of
                         None \<Rightarrow> Inl TypeError
                       | Some ws \<Rightarrow>
                           Inr (emit [Unplug this healStack, PlayAudio this ''delete'',
                                      DisposeAnimation this] s1))
                 else Inr s1) of
             Inl err \<Rightarrow> Inl err
           | Inr s2 \<Rightarrow>
               Inr (superClass_dispose this healStack
                      (s2\<lparr>blocks := (blocks s2)
                             (this := (blocks s2 this)\<lparr>rendered := False\<rparr>)\<rparr>))))"

text \<open>The end of \<open>onMouseUp_\<close>: the highlight is removed.\<close>

definition clearHighlight :: "blockly \<Rightarrow> blockly" where
  "clearHighlight s =
     (case highlightedConnection s of
        Some hc \<Rightarrow> (emit [Unhighlight hc] s)\<lparr>highlightedConnection := None\<rparr>
      | None \<Rightarrow> s)"

text \<open>
  \<open>onMouseUp_\<close>, for the block \<open>this\<close> the handler was bound to.
\<close>

definition onMouseUp :: "block_id \<Rightarrow> pointer_event \<Rightarrow> blockly \<Rightarrow> js_error + blockly" where
  "onMouseUp this e s0 =
     (case terminateDrag s0 of
        Inl err \<Rightarrow> Inl err
      | Inr s \<Rightarrow>
          if selected s \<noteq> None \<and> highlightedConnection s \<noteq> None then
            (case (localConnection s, highlightedConnection s) of
               (Some lc, Some hc) \<Rightarrow>
                 (let s1 = emit [Connect lc hc] s
                  in case (if rendered (blocks s1 this)
                           then connectionUiEffect
                                  (sourceBlock (if superior lc then hc else lc)) s1
                           else Inr s1) of
                       Inl err \<Rightarrow> Inl err
                     | Inr s2 \<Rightarrow>
                         (case workspace (blocks s2 this) of
                            None \<Rightarrow> Inl TypeError
                          | Some ws \<Rightarrow>
                              Inr (clearHighlight
                                     (if trashcan ws then emit [TrashcanClose] s2 else s2))))
             | _ \<Rightarrow> Inl TypeError)
          else if parentBlock (blocks s this) = None then
            (case selected s of
               None \<Rightarrow> Inl TypeError
             | Some sel \<Rightarrow>
                 if deletable (blocks s sel) then
                   (case workspace (blocks s this) of
                      None \<Rightarrow> Inl TypeError
                    | Some ws \<Rightarrow>
                        if overDeleteArea e then
                          (case dispose sel False True
                                  (if trashcan ws then emit [TrashcanCloseLater] s else s) of
                             Inl err \<Rightarrow> Inl err
                           | Inr s1 \<Rightarrow> Inr (clearHighlight (emit [FireResize] s1)))
                        else Inr (clearHighlight s))
                 else Inr (clearHighlight s))
          else Inr (clearHighlight s))"

text \<open>
  A pointer release reaches \<open>onMouseUp_\<close> only through the binding made by
  \<open>onMouseDown_\<close>; with no binding nothing of this file runs.
\<close>

definition mouseup :: "pointer_event \<Rightarrow> blockly \<Rightarrow> js_error + blockly" where
  "mouseup e s =
     (case onMouseUpWrapper s of
        None \<Rightarrow> Inr s
      | Some this \<Rightarrow> onMouseUp this e s)"

text \<open>A drag session of block \<open>b\<close> is in progress.\<close>

definition dragging :: "block_id \<Rightarrow> blockly \<Rightarrow> bool" where
  "dragging b s =
     (selected s = Some b \<and> onMouseUpWrapper s = Some b \<and> onMouseMoveWrapper s = Some b
      \<and> (dragMode s = 1 \<or> dragMode s = 2))"




section \<open>Proximity scan while dragging freely\<close>

record neighbour =
  neighbour_connection :: "connection option"
  neighbour_radius :: number

text \<open>
  The Euclidean distance between a candidate \<open>c\<close> and the connection \<open>m\<close> of the dragged
  block once the trial offset is applied to \<open>m\<close>.
\<close>

definition distanceFrom :: "connection \<Rightarrow> number \<Rightarrow> number \<Rightarrow> connection \<Rightarrow> number" where
  "distanceFrom m dx dy c =
     sqrt ((conn_x c - (conn_x m + dx))\<^sup>2 + (conn_y c - (conn_y m + dy))\<^sup>2)"

text \<open>
  Modelled from the spec: \<open>Blockly.Connection.prototype.closest\<close> is not in this file.
  It scans the candidate connections of the complementary kind, computes the Euclidean
  distance after applying the trial offset, and returns the closest one strictly within
  the radius, the first in iteration order among equals, with its distance; with no
  such candidate its \<open>connection\<close> is null. \<open>candidates m\<close> lists, in iteration order,
  the connections of the complementary kind that the registry offers for \<open>m\<close>.
\<close>

definition closest ::
  "(connection \<Rightarrow> connection list) \<Rightarrow> connection \<Rightarrow> number \<Rightarrow> number \<Rightarrow> number \<Rightarrow> neighbour" where
  "closest candidates m maxLimit dx dy =
     (let inRange = filter (\<lambda>c. distanceFrom m dx dy c < maxLimit) (candidates m)
      in if inRange = [] then \<lparr>neighbour_connection = None, neighbour_radius = maxLimit\<rparr>
         else (let c = arg_min_list (distanceFrom m dx dy) inRange
               in \<lparr>neighbour_connection = Some c,
                   neighbour_radius = distanceFrom m dx dy c\<rparr>))"

text \<open>The three local variables of the scan in \<open>onMouseMove_\<close>.\<close>

record scan =
  closestConnection :: "connection option"
  scan_localConnection :: "connection option"
  radiusConnection :: number

text \<open>The loop over \<open>myConnections\<close>.\<close>

fun scanConnections ::
  "(connection \<Rightarrow> connection list) \<Rightarrow> number \<Rightarrow> number \<Rightarrow> connection list \<Rightarrow> scan \<Rightarrow> scan" where
  "scanConnections candidates dx dy [] st = st"
| "scanConnections candidates dx dy (myConnection # rest) st =
     (let neighbour = closest candidates myConnection (radiusConnection st) dx dy
      in scanConnections candidates dx dy rest
           (case neighbour_connection neighbour of
              Some c \<Rightarrow>
                \<lparr>closestConnection = Some c,
                 scan_localConnection = Some myConnection,
                 radiusConnection = neighbour_radius neighbour\<rparr>
            | None \<Rightarrow> st))"

text \<open>Removing and adding the connection highlight after the scan.\<close>

definition updateHighlight :: "scan \<Rightarrow> blockly \<Rightarrow> blockly" where
  "updateHighlight st s =
     (let s1 = (case highlightedConnection s of
                  Some hc \<Rightarrow>
                    if Some hc \<noteq> closestConnection st
                    then (emit [Unhighlight hc] s)
                           \<lparr>highlightedConnection := None, localConnection := None\<rparr>
                    else s
                | None \<Rightarrow> s)
      in case closestConnection st of
           Some c \<Rightarrow>
             if Some c \<noteq> highlightedConnection s1
             then (emit [Highlight c] s1)
                    \<lparr>highlightedConnection := Some c,
                     localConnection := scan_localConnection st\<rparr>
             else s1
         | None \<Rightarrow> s1)"

text \<open>
  The scan of one pointer move in free dragging; \<open>SNAP_RADIUS\<close> is a constant of the
  editor that this file does not define.
\<close>

definition proximityScan ::
  "number \<Rightarrow> (connection \<Rightarrow> connection list) \<Rightarrow> connection list \<Rightarrow> number \<Rightarrow> number \<Rightarrow> scan" where
  "proximityScan SNAP_RADIUS candidates myConnections dx dy =
     scanConnections candidates dx dy myConnections
       \<lparr>closestConnection = None, scan_localConnection = None,
        radiusConnection = SNAP_RADIUS\<rparr>"

section \<open>Deferred warning text\<close>

text \<open>A deferred update: the block, the text (or null) and the warning id.\<close>

record warning_task =
  task_block :: block_id
  task_text :: "string option"
  task_id :: string

text \<open>
  \<open>pid\<close> is the object \<open>this.setWarningText.pid_\<close>, from warning id to timer: a
  property of the function \<open>setWarningText\<close>, which every block finds on the one
  prototype, so there is one such object for all blocks. \<open>timers\<close> are the pending
  timeouts of the event loop, \<open>lastTimer\<close> the last timer handed out (timers are
  positive), \<open>applied\<close> the updates that went through at once.
\<close>

record warnings =
  pid :: "(string \<times> nat) list"
  timers :: "(nat \<times> warning_task) list"
  lastTimer :: nat
  applied :: "(block_id \<times> string option \<times> string) list"

definition clearTimeout :: "nat \<Rightarrow> warnings \<Rightarrow> warnings" where
  "clearTimeout t s = s\<lparr>timers := filter (\<lambda>(t', task). t' \<noteq> t) (timers s)\<rparr>"

definition setTimeout :: "warning_task \<Rightarrow> warnings \<Rightarrow> nat \<times> warnings" where
  "setTimeout task s =
     (let t = Suc (lastTimer s)
      in (t, s\<lparr>timers := timers s @ [(t, task)], lastTimer := t\<rparr>))"

definition deletePid :: "string \<Rightarrow> warnings \<Rightarrow> warnings" where
  "deletePid n s = s\<lparr>pid := filter (\<lambda>(n', t). n' \<noteq> n) (pid s)\<rparr>"

definition putPid :: "string \<Rightarrow> nat \<Rightarrow> warnings \<Rightarrow> warnings" where
  "putPid n t s = s\<lparr>pid := filter (\<lambda>(n', t'). n' \<noteq> n) (pid s) @ [(n, t)]\<rparr>"

text \<open>
  \<open>setWarningText\<close>, with the value of \<open>Blockly.dragMode_\<close> first. The update that is
  not deferred (the rest of the function) is kept as one entry of \<open>applied\<close>.
\<close>

definition setWarningText ::
  "nat \<Rightarrow> block_id \<Rightarrow> string option \<Rightarrow> string option \<Rightarrow> warnings \<Rightarrow> warnings" where
  "setWarningText mode this text opt_id s =
     (let id = (case opt_id of None \<Rightarrow> [] | Some i \<Rightarrow> i);
          s1 = (if id = [] then
                  foldl (\<lambda>s' (n, t). deletePid n (clearTimeout t s')) s (pid s)
                else
                  (case map_of (pid s) id of
                     Some t \<Rightarrow> if t \<noteq> 0 then deletePid id (clearTimeout t s) else s
                   | None \<Rightarrow> s))
      in if mode = 2 then
           (let (t, s2) = setTimeout \<lparr>task_block = this, task_text = text, task_id = id\<rparr> s1
            in putPid id t s2)
         else s1\<lparr>applied := applied s1 @ [(this, text, id)]\<rparr>)"

text \<open>
  A pending timeout runs: \<open>live b\<close> says whether block \<open>b\<close> still has its workspace.
\<close>

definition fireTimer :: "nat \<Rightarrow> (block_id \<Rightarrow> bool) \<Rightarrow> nat \<Rightarrow> warnings \<Rightarrow> warnings" where
  "fireTimer mode live t s =
     (case map_of (timers s) t of
        None \<Rightarrow> s
      | Some task \<Rightarrow>
          (let s1 = clearTimeout t s
           in if live (task_block task)
              then setWarningText mode (task_block task) (task_text task) (Some (task_id task))
                     (deletePid (task_id task) s1)
              else s1))"

text \<open>The pending deferred updates of a block for a warning id.\<close>

definition pending :: "block_id \<Rightarrow> string \<Rightarrow> warnings \<Rightarrow> (nat \<times> warning_task) list" where
  "pending b i s = filter (\<lambda>(t, task). task_block task = b \<and> task_id task = i) (timers s)"

definition noWarnings :: warnings where
  "noWarnings = \<lparr>pid = [], timers = [], lastTimer = 0, applied = []\<rparr>"

text \<open>
  The first part of \<open>setWarningText\<close> on its own: the timers it clears for a warning
  id (all of them when the id is empty).
\<close>

definition cleared :: "string \<Rightarrow> warnings \<Rightarrow> warnings" where
  "cleared i s =
     (if i = [] then foldl (\<lambda>s' (n, t). deletePid n (clearTimeout t s')) s (pid s)
      else (case map_of (pid s) i of
              Some t \<Rightarrow> if t \<noteq> 0 then deletePid i (clearTimeout t s) else s
            | None \<Rightarrow> s))"

text \<open>
  Every pending timer is the one that \<open>pid\<close> holds for its warning id, and no two
  pending timers share a number.
\<close>

definition registered :: "warnings \<Rightarrow> bool" where
  "registered s =
     (distinct (map fst (timers s))
      \<and> list_all (\<lambda>(t, task). 0 < t \<and> t \<le> lastTimer s
                      \<and> map_of (pid s) (task_id task) = Some t) (timers s))"

text \<open>
  The states that calls of \<open>setWarningText\<close>, on any block and in any drag mode, and
  runs of pending timers lead to.
\<close>

inductive reachable :: "warnings \<Rightarrow> bool" where
  start: "reachable noWarnings"
| call: "reachable s \<Longrightarrow> reachable (setWarningText mode b msg opt_id s)"
| fire: "reachable s \<Longrightarrow> reachable (fireTimer mode live t s)"

section \<open>Example inputs\<close>

text \<open>
  A block with two image fields, in different inputs, a statement input and a next
  connection but no previous connection.
\<close>

definition twoIcons :: block where
  "twoIcons =
     Block 0 0
       [\<lparr>input_type = DUMMY_INPUT,
         fieldRow = [FieldImage ''first.svg'' 40 40, FieldLabel ''when'']\<rparr>,
        \<lparr>input_type = NEXT_STATEMENT, fieldRow = [FieldImage ''second.svg'' 24 24]\<rparr>]
       False False (Some None)"

text \<open>
  A value block (output connection only), a block that ends a stack (previous
  connection only), and a hat block with that block chained below it.
\<close>

definition reporter :: block where
  "reporter = Block 56 40 [] False True None"

definition capBlock :: block where
  "capBlock = Block 56 120 [] True False None"

definition twoStack :: block where
  "twoStack = Block 60 90 [] False False (Some (Some capBlock))"

text \<open>Two connections, a live top-level block and two small trees.\<close>

definition conn0 :: connection where
  "conn0 = \<lparr>conn_id = 0, sourceBlock = 7, superior = False, conn_x = 10, conn_y = 20\<rparr>"

definition conn1 :: connection where
  "conn1 = \<lparr>conn_id = 1, sourceBlock = 8, superior = True, conn_x = 50, conn_y = 20\<rparr>"

definition liveBlock :: svg_block where
  "liveBlock =
     \<lparr>workspace = Some \<lparr>gridOptions = Some \<lparr>snap = True, spacing = 10\<rparr>,
                         scale = 1, trashcan = True\<rparr>,
      rendered = True, isInFlyout = False, movable = True, deletable = True,
      parentBlock = None, translate = (13, 27), connections = [conn0]\<rparr>"

definition hiddenTree :: block_tree where
  "hiddenTree = Node (liveBlock\<lparr>rendered := False\<rparr>) []"

definition smallTree :: block_tree where
  "smallTree =
     Node liveBlock
       [Node (liveBlock\<lparr>parentBlock := Some 7, translate := (40, 0),
                        connections := [conn1]\<rparr>) []]"

text \<open>
  A click, an idle editor in which every block is the live block above, and drag
  sessions of block 7: just started; over a candidate, with the local connection
  inferior; the same with the workspace zoomed out; the same with the blocks not yet
  marked as rendered.
\<close>

definition ev :: pointer_event where
  "ev = \<lparr>rightButton = False, overDeleteArea = False\<rparr>"

definition idle :: blockly where
  "idle =
     \<lparr>selected = None, highlightedConnection = None, localConnection = None, dragMode = 0,
      onMouseUpWrapper = None, onMouseMoveWrapper = None, blocks = (\<lambda>i. liveBlock),
      effects = [], stackLimit = 100\<rparr>"

definition midDrag :: blockly where
  "midDrag =
     idle\<lparr>selected := Some 7, dragMode := 1,
          onMouseUpWrapper := Some 7, onMouseMoveWrapper := Some 7\<rparr>"




text \<open>The drag of block 7 just started, after block 8 has been selected instead.\<close>

definition reselected :: blockly where
  "reselected = midDrag\<lparr>selected := Some 8\<rparr>"

text \<open>A third connection, near \<open>conn0\<close>, and a registry that offers two candidates.\<close>

definition connNear :: connection where
  "connNear = \<lparr>conn_id = 2, sourceBlock = 9, superior = True, conn_x = 13, conn_y = 24\<rparr>"

definition offered :: "connection \<Rightarrow> connection list" where
  "offered m = [conn1, connNear]"

text \<open>The deferred update that block 7 schedules in the example of the warning text.\<close>

definition firstTask :: warning_task where
  "firstTask = \<lparr>task_block = 7, task_text = Some ''check the input'', task_id = ''a''\<rparr>"

section \<open>Properties of the geometry model\<close>

lemma findIcon_last:
  "findIcon fs ic =
     (if filter isFieldImage fs = [] then ic else Some (last (filter isFieldImage fs)))"
  by (induction fs arbitrary: ic) auto

lemma renderCompute_loop_icon:
  "icon (renderCompute_loop inps m) =
     (if filter isFieldImage (concat (map fieldRow inps)) = [] then icon m
      else Some (last (filter isFieldImage (concat (map fieldRow inps)))))"
  by (induction inps arbitrary: m) (auto simp: findIcon_last)

lemma renderCompute_loop_hasStatement:
  "hasStatement (renderCompute_loop inps m) =
     (hasStatement m \<or> NEXT_STATEMENT \<in> set (map input_type inps))"
  by (induction inps arbitrary: m) auto

text \<open>
  C8, as stated, fails: with two image fields the geometry pass keeps the second one,
  not the first, and the draw pass positions that second one.
\<close>

theorem renderCompute_icon_first_counterexample:
  "firstOption (imageFields twoIcons) = Some (FieldImage ''first.svg'' 40 40)
   \<and> icon (renderCompute twoIcons) = Some (FieldImage ''second.svg'' 24 24)
   \<and> map fst (render_icon twoIcons) = [FieldImage ''second.svg'' 24 24]"
  by (simp add: twoIcons_def imageFields_def firstOption_def renderCompute_def
      render_icon_def renderDraw_icon_def)

text \<open>
  C8, amended: the icon computed by the geometry pass is the last image field in
  input order, then field order (none if the block has no image field), and the draw
  pass positions that field and no other.
\<close>

theorem renderCompute_icon_last:
  "icon (renderCompute b) = lastOption (imageFields b)
   \<and> map fst (render_icon b) =
       (case lastOption (imageFields b) of None \<Rightarrow> [] | Some f \<Rightarrow> [f])"
  by (simp add: renderCompute_def Let_def renderCompute_loop_icon imageFields_def
      lastOption_def render_icon_def renderDraw_icon_def)

theorem renderCompute_icon_last_witness:
  "icon (renderCompute twoIcons) = Some (FieldImage ''second.svg'' 24 24)
   \<and> map fst (render_icon twoIcons) = [FieldImage ''second.svg'' 24 24]"
  using renderCompute_icon_last [of twoIcons]
  by (simp add: twoIcons_def imageFields_def lastOption_def)

lemmas renderDraw_defs =
  renderDraw_steps_def renderDrawLeft_def renderDrawBottom_def renderDrawRight_def
  renderDrawTop_def statementRecess_def run_def path_constants ui_constants

text \<open>
  The path of \<open>renderDraw_\<close> for any metrics, so for each of the eight combinations of
  previous connection, next connection and statement input.
\<close>

lemma renderDraw_steps_closed: "single_closed_contour (renderDraw_steps b m)"
  by (simp add: single_closed_contour_def renderDraw_defs Let_def)

lemma renderDraw_steps_before_close:
  "cur (run (butlast (renderDraw_steps b m))) =
     (metrics_width m - (if nextConnection b \<noteq> None then CORNER_RADIUS else HAT_CORNER_RADIUS), 0)"
  by (simp add: renderDraw_defs Let_def butlast_append)

lemma renderDraw_steps_start:
  "start (run (renderDraw_steps b m)) =
     (if previousConnection b then CORNER_RADIUS else HAT_CORNER_RADIUS, 0)"
  by (simp add: renderDraw_defs Let_def)

text \<open>Each of the eight combinations is the shape of some block.\<close>

lemma all_edge_combinations:
  "\<exists>b. previousConnection b = p \<and> (nextConnection b \<noteq> None) = n
       \<and> hasStatement (renderCompute b) = st"
proof -
  let ?b = "Block 0 0 (if st then [\<lparr>input_type = NEXT_STATEMENT, fieldRow = []\<rparr>] else [])
              p False (if n then Some None else None)"
  have "previousConnection ?b = p \<and> (nextConnection ?b \<noteq> None) = n
        \<and> hasStatement (renderCompute ?b) = st"
    by (simp add: renderCompute_def)
  then show ?thesis by blast
qed

text \<open>
  C1: for every block the path assembled by \<open>render\<close> is a single closed contour. It
  has one move command, at its head, and one close command, at its end, and the pen
  ends where the move put it: at the top of the left corner. Before the close command
  the pen stands at the top of the right corner, at the same height, so the closing
  line is the straight top edge.
\<close>

theorem render_outline_closed:
  "single_closed_contour (render_steps b)
   \<and> cur (run (render_steps b)) =
       (if previousConnection b then CORNER_RADIUS else HAT_CORNER_RADIUS, 0)
   \<and> cur (run (butlast (render_steps b))) =
       (metrics_width (renderCompute b)
          - (if nextConnection b \<noteq> None then CORNER_RADIUS else HAT_CORNER_RADIUS), 0)"
proof -
  have "cur (run (render_steps b)) = start (run (render_steps b))"
    by (simp add: render_steps_def renderDraw_defs Let_def)
  then show ?thesis
    by (simp add: render_steps_def renderDraw_steps_closed renderDraw_steps_before_close
        renderDraw_steps_start)
qed

theorem render_outline_closed_witness:
  "single_closed_contour (render_steps twoIcons)
   \<and> cur (run (render_steps twoIcons)) = (16, 0)
   \<and> cur (run (butlast (render_steps twoIcons))) = (36, 0)"
  using render_outline_closed [of twoIcons]
  by (simp add: twoIcons_def renderCompute_def ui_constants)

section \<open>Properties of the footprint\<close>

lemma getHeightWidth_next:
  "getNextBlock b = Some nextBlock \<Longrightarrow>
   getHeightWidth b =
     (height b + fst (getHeightWidth nextBlock) - 4,
      max (width b) (snd (getHeightWidth nextBlock)))"
  by (simp add: getHeightWidth.simps [of b] Let_def)

lemma getHeightWidth_bottom:
  "getNextBlock b = None \<Longrightarrow>
   getHeightWidth b =
     (height b + (if nextConnection b = None \<and> \<not> outputConnection b then 2 else 0),
      width b)"
  by (simp add: getHeightWidth.simps [of b])

lemma getHeightWidth_Block:
  "getHeightWidth (Block h w inps prev out None) = (if \<not> out then (h + 2, w) else (h, w))"
  "getHeightWidth (Block h w inps prev out (Some None)) = (h, w)"
  "getHeightWidth (Block h w inps prev out (Some (Some nextBlock))) =
     (h + (fst (getHeightWidth nextBlock) - 4), max w (snd (getHeightWidth nextBlock)))"
  by (simp_all add: getHeightWidth.simps [of "Block h w inps prev out nxt" for nxt]
      getNextBlock_def Let_def)

lemma stack_not_empty: "stack b \<noteq> []"
  by (subst stack.simps) simp

text \<open>
  The footprint of a whole stack: the heights add up, less 4 for every joint, plus
  the margin at the bottom of the stack; the width is the largest width.
\<close>

lemma stack_height:
  "fst (getHeightWidth b) =
     sum_list (map height (stack b)) - 4 * (real (length (stack b)) - 1)
     + (if nextConnection (last (stack b)) = None \<and> \<not> outputConnection (last (stack b))
        then 2 else 0)"
proof (induction b rule: getHeightWidth.induct)
  case (1 b)
  show ?case
  proof (cases "getNextBlock b")
    case None
    then show ?thesis by (simp add: getHeightWidth_bottom stack.simps [of b])
  next
    case (Some nb)
    with 1 [OF Some] show ?thesis
      by (simp add: getHeightWidth_next stack.simps [of b] stack_not_empty algebra_simps)
  qed
qed

lemma stack_width: "snd (getHeightWidth b) = Max (set (map width (stack b)))"
proof (induction b rule: getHeightWidth.induct)
  case (1 b)
  show ?case
  proof (cases "getNextBlock b")
    case None
    then show ?thesis by (simp add: getHeightWidth_bottom stack.simps [of b])
  next
    case (Some nb)
    with 1 [OF Some] show ?thesis
      by (simp add: getHeightWidth_next stack.simps [of b] stack_not_empty)
  qed
qed

text \<open>
  C6: when a next block is chained, the reported height is the block's height plus
  the height of the chained footprint minus 4, and the reported width is the larger of
  the block's width and the width of the chained footprint. Followed down the stack,
  the footprint takes in every block chained below.
\<close>

theorem getHeightWidth_chained:
  "(\<forall>nextBlock. getNextBlock b = Some nextBlock \<longrightarrow>
      getHeightWidth b =
        (height b + fst (getHeightWidth nextBlock) - 4,
         max (width b) (snd (getHeightWidth nextBlock))))
   \<and> fst (getHeightWidth b) =
       sum_list (map height (stack b)) - 4 * (real (length (stack b)) - 1)
       + (if nextConnection (last (stack b)) = None \<and> \<not> outputConnection (last (stack b))
          then 2 else 0)
   \<and> snd (getHeightWidth b) = Max (set (map width (stack b)))"
  using getHeightWidth_next [of b] stack_height [of b] stack_width [of b] by blast

theorem getHeightWidth_chained_witness:
  "getNextBlock twoStack = Some capBlock
   \<and> getHeightWidth capBlock = (58, 120)
   \<and> getHeightWidth twoStack = (114, 120)"
proof -
  have n: "getNextBlock twoStack = Some capBlock"
    by (simp add: getNextBlock_def twoStack_def)
  have c: "getHeightWidth capBlock = (58, 120)"
    by (simp add: capBlock_def getHeightWidth_Block)
  show ?thesis
    using getHeightWidth_chained [of twoStack] n c by (simp add: twoStack_def)
qed

text \<open>
  C7, as stated, fails in both directions. A block with a previous connection, and
  neither next nor output connection, does get the margin; a block with neither
  previous nor next connection, but with an output connection, does not.
\<close>

theorem getHeightWidth_margin_counterexample:
  "previousConnection capBlock \<and> getNextBlock capBlock = None
   \<and> fst (getHeightWidth capBlock) = height capBlock + 2
   \<and> \<not> previousConnection reporter \<and> nextConnection reporter = None
   \<and> fst (getHeightWidth reporter) = height reporter"
  by (simp add: getHeightWidth_Block getNextBlock_def capBlock_def reporter_def)

text \<open>
  C7, amended: a block with no next block chained gets the margin of 2 exactly when
  it has neither a next connection nor an output connection; whether it has a
  previous connection plays no part.
\<close>

theorem getHeightWidth_margin:
  "getNextBlock b = None \<Longrightarrow>
   getHeightWidth b =
     (if nextConnection b = None \<and> \<not> outputConnection b
      then (height b + 2, width b) else (height b, width b))"
  by (simp add: getHeightWidth.simps [of b])

theorem getHeightWidth_margin_witness:
  "getNextBlock reporter = None \<and> getHeightWidth reporter = (56, 40)"
proof -
  have n: "getNextBlock reporter = None"
    by (simp add: getNextBlock_def reporter_def)
  show ?thesis
    using n getHeightWidth_margin [OF n] by (simp add: reporter_def)
qed

section \<open>Properties of moving and snapping\<close>

lemma allConnections_moveConnections:
  "allRendered t \<Longrightarrow>
   allConnections (moveConnections dx dy t) = map (connection_moveBy dx dy) (allConnections t)"
proof (induction t)
  case (Node b children)
  then show ?case
    by (auto simp: list_all_iff map_concat intro!: arg_cong [where f = concat])
qed

lemma moveConnections_unrendered: "\<not> rendered (self t) \<Longrightarrow> moveConnections dx dy t = t"
  by (cases t) simp

lemma moveConnections_translate:
  "translate (self (moveConnections dx dy t)) = translate (self t)"
  by (cases t) simp

text \<open>
  C5, as stated, fails: \<open>moveConnections_\<close> returns at once on a block that is not
  rendered, so its connection stays where it was.
\<close>

theorem moveBy_unrendered_counterexample:
  "positions hiddenTree = [(10, 20)] \<and> positions (moveBy [] 1 1 hiddenTree) = [(10, 20)]"
  by (simp add: positions_def hiddenTree_def liveBlock_def conn0_def moveBy_def Let_def
      getRelativeToSurfaceXY_def)

text \<open>
  C5, amended: if the block and all its descendants are rendered, then after
  \<open>moveBy(dx, dy)\<close> every connection of the block and of each descendant stands at its
  former position translated by (dx, dy). If the block itself is not rendered, no
  connection moves.
\<close>

theorem moveBy_connections:
  "(allRendered t \<longrightarrow>
      positions (moveBy outer dx dy t) = map (\<lambda>(x, y). (x + dx, y + dy)) (positions t))
   \<and> (\<not> rendered (self t) \<longrightarrow> positions (moveBy outer dx dy t) = positions t)"
proof -
  let ?t' = "Node ((self t)\<lparr>translate := (fst (getRelativeToSurfaceXY outer t) + dx,
                                          snd (getRelativeToSurfaceXY outer t) + dy)\<rparr>)
               (childBlocks t)"
  have m: "moveBy outer dx dy t = moveConnections dx dy ?t'"
    by (simp add: moveBy_def Let_def)
  have a: "allConnections ?t' = allConnections t" by (cases t) simp
  have r: "allRendered ?t' = allRendered t" by (cases t) simp
  have moved: "allConnections (moveBy outer dx dy t) =
                 map (connection_moveBy dx dy) (allConnections t)"
    if "allRendered t"
    using that m a r allConnections_moveConnections [of ?t' dx dy] by simp
  have kept: "allConnections (moveBy outer dx dy t) = allConnections t"
    if "\<not> rendered (self t)"
    using that m a moveConnections_unrendered [of ?t' dx dy] by simp
  show ?thesis
    by (auto simp: positions_def moved kept connection_moveBy_def)
qed

theorem moveBy_connections_witness:
  "allRendered smallTree \<and> positions smallTree = [(10, 20), (50, 20)]
   \<and> positions (moveBy [] 2 (- 2) smallTree) = [(12, 18), (52, 18)]"
  using moveBy_connections [of smallTree "[]" 2 "- 2"]
  by (simp add: smallTree_def liveBlock_def conn0_def conn1_def positions_def)

lemma moveBy_top:
  "getRelativeToSurfaceXY [] (moveBy [] dx dy t) =
     (fst (getRelativeToSurfaceXY [] t) + dx, snd (getRelativeToSurfaceXY [] t) + dy)"
  by (simp add: getRelativeToSurfaceXY_def moveBy_def Let_def moveConnections_translate)

lemma Math_round_near: "\<bar>Math_round x - x\<bar> \<le> 1 / 2"
  unfolding Math_round_def by linarith

lemma Math_round_whole: "x \<in> \<int> \<Longrightarrow> Math_round x = x"
  unfolding Math_round_def by (auto elim!: Ints_cases)

text \<open>
  C2: for a live top-level block outside the flyout, with snapping enabled (and a
  spacing other than zero) and no drag in progress, \<open>snapToGrid\<close> moves the block from
  surface position \<open>(px, py)\<close> by the offset to the grid target
  \<open>round((p - s/2) / s) * s + s/2\<close>, the offset rounded to an integer, in each
  coordinate. The new coordinate is within 1/2 of the grid target, and is the grid
  target itself whenever the offset is a whole number. With a drag in progress, a
  parent, or a block in the flyout, the block is returned as it was.
\<close>

theorem snapToGrid_spec:
  "(workspace (self t) = Some ws \<and> gridOptions ws = Some g \<and> snap g \<and> spacing g \<noteq> 0
      \<and> mode = 0 \<and> parentBlock (self t) = None \<and> \<not> isInFlyout (self t)
      \<and> getRelativeToSurfaceXY [] t = (px, py) \<longrightarrow>
      (\<exists>t'. snapToGrid mode t = Inr t'
         \<and> getRelativeToSurfaceXY [] t' =
             (px + Math_round (gridTarget (spacing g) px - px),
              py + Math_round (gridTarget (spacing g) py - py))))
   \<and> \<bar>p + Math_round (gridTarget s p - p) - gridTarget s p\<bar> \<le> 1 / 2
   \<and> (gridTarget s p - p \<in> \<int> \<longrightarrow> p + Math_round (gridTarget s p - p) = gridTarget s p)
   \<and> (mode \<noteq> 0 \<or> parentBlock (self t) \<noteq> None \<or> isInFlyout (self t) \<longrightarrow>
        snapToGrid mode t = Inr t)"
proof (intro conjI impI)
  assume a: "workspace (self t) = Some ws \<and> gridOptions ws = Some g \<and> snap g \<and> spacing g \<noteq> 0
      \<and> mode = 0 \<and> parentBlock (self t) = None \<and> \<not> isInFlyout (self t)
      \<and> getRelativeToSurfaceXY [] t = (px, py)"
  let ?dx = "Math_round (gridTarget (spacing g) px - px)"
  let ?dy = "Math_round (gridTarget (spacing g) py - py)"
  show "\<exists>t'. snapToGrid mode t = Inr t'
         \<and> getRelativeToSurfaceXY [] t' = (px + ?dx, py + ?dy)"
  proof (cases "?dx \<noteq> 0 \<or> ?dy \<noteq> 0")
    case True
    with a have "snapToGrid mode t = Inr (moveBy [] ?dx ?dy t)"
      by (simp add: snapToGrid_def gridTarget_def Let_def)
    with a show ?thesis by (simp add: moveBy_top)
  next
    case False
    with a have "snapToGrid mode t = Inr t"
      by (simp add: snapToGrid_def gridTarget_def Let_def)
    with a False show ?thesis by simp
  qed
next
  show "\<bar>p + Math_round (gridTarget s p - p) - gridTarget s p\<bar> \<le> 1 / 2"
    using Math_round_near [of "gridTarget s p - p"] by (simp add: algebra_simps)
next
  assume "gridTarget s p - p \<in> \<int>"
  then show "p + Math_round (gridTarget s p - p) = gridTarget s p"
    by (simp add: Math_round_whole)
next
  assume "mode \<noteq> 0 \<or> parentBlock (self t) \<noteq> None \<or> isInFlyout (self t)"
  then show "snapToGrid mode t = Inr t"
    by (auto simp: snapToGrid_def split: option.splits)
qed

theorem snapToGrid_spec_witness:
  "getRelativeToSurfaceXY [] smallTree = (13, 27)
   \<and> gridTarget 10 13 = 15 \<and> gridTarget 10 27 = 25
   \<and> (\<exists>t'. snapToGrid 0 smallTree = Inr t' \<and> getRelativeToSurfaceXY [] t' = (15, 25))
   \<and> snapToGrid 2 smallTree = Inr smallTree"
proof -
  have t: "gridTarget 10 13 = 15" "gridTarget 10 27 = 25"
    by (simp_all add: gridTarget_def Math_round_def)
  have r: "Math_round 2 = 2" "Math_round (- 2) = - 2"
    by (simp_all add: Math_round_def)
  have xy: "getRelativeToSurfaceXY [] smallTree = (13, 27)"
    by (simp add: getRelativeToSurfaceXY_def smallTree_def liveBlock_def)
  have s: "self smallTree = liveBlock" by (simp add: smallTree_def)
  show ?thesis
    using snapToGrid_spec [of smallTree
        "\<lparr>gridOptions = Some \<lparr>snap = True, spacing = 10\<rparr>, scale = 1, trashcan = True\<rparr>"
        "\<lparr>snap = True, spacing = 10\<rparr>" 0 13 27 0 0]
      snapToGrid_spec [of smallTree _ _ 2 _ _ 0 0] xy t r
    by (simp add: s liveBlock_def)
qed

section \<open>Properties of the drag controller\<close>

lemma emit_fields [simp]:
  "effects (emit es s) = effects s @ es"
  "selected (emit es s) = selected s"
  "highlightedConnection (emit es s) = highlightedConnection s"
  "localConnection (emit es s) = localConnection s"
  "dragMode (emit es s) = dragMode s"
  "onMouseUpWrapper (emit es s) = onMouseUpWrapper s"
  "onMouseMoveWrapper (emit es s) = onMouseMoveWrapper s"
  "blocks (emit es s) = blocks s"
  "stackLimit (emit es s) = stackLimit s"
  by (simp_all add: emit_def)


text \<open>Rendering changes nothing but the \<open>rendered\<close> marks and the log.\<close>

lemma render_keeps:
  "render depth b s = Inr s' \<Longrightarrow>
   selected s' = selected s \<and> highlightedConnection s' = highlightedConnection s
   \<and> localConnection s' = localConnection s \<and> dragMode s' = dragMode s
   \<and> onMouseUpWrapper s' = onMouseUpWrapper s
   \<and> onMouseMoveWrapper s' = onMouseMoveWrapper s
   \<and> stackLimit s' = stackLimit s
   \<and> (\<forall>x. workspace (blocks s' x) = workspace (blocks s x)
          \<and> movable (blocks s' x) = movable (blocks s x)
          \<and> deletable (blocks s' x) = deletable (blocks s x)
          \<and> isInFlyout (blocks s' x) = isInFlyout (blocks s x)
          \<and> parentBlock (blocks s' x) = parentBlock (blocks s x))"
proof (induction depth b s rule: render.induct)
  case (1 b s)
  then show ?case by simp
next
  case (2 depth b s)
  show ?case
  proof (cases "workspace (blocks s b)")
    case None
    with 2 show ?thesis by simp
  next
    case (Some ws)
    let ?s1 = "s\<lparr>blocks := (blocks s)(b := (blocks s b)\<lparr>rendered := True\<rparr>)\<rparr>"
    show ?thesis
    proof (cases "parentBlock (blocks s b)")
      case None
      with Some 2(2) show ?thesis by (auto simp: Let_def split: if_splits)
    next
      case (Some parent)
      with \<open>workspace (blocks s b) = Some ws\<close> 2(2) have "render depth parent ?s1 = Inr s'"
        by (simp add: Let_def)
      from 2(1) [OF \<open>workspace (blocks s b) = Some ws\<close> refl _ this] Some
      show ?thesis by (auto split: if_splits)
    qed
  qed
qed






text \<open>A drag session always starts on the selected block: \<open>onMouseDown_\<close> selects it.\<close>

lemma terminateDrag_keeps:
  "terminateDrag s = Inr s1 \<Longrightarrow>
   onMouseUpWrapper s1 = None \<and> onMouseMoveWrapper s1 = None \<and> dragMode s1 = 0
   \<and> selected s1 = selected s
   \<and> (\<forall>x. workspace (blocks s1 x) = workspace (blocks s x)
          \<and> movable (blocks s1 x) = movable (blocks s x))"
  by (auto simp: terminateDrag_def Let_def split: if_splits option.splits sum.splits
      dest!: render_keeps)

lemma onMouseDown_starts_drag:
  assumes "\<not> isInFlyout (blocks s b)" and "movable (blocks s b)" and "\<not> rightButton e"
    and "onMouseDown b e s = Inr s'"
  shows "dragging b s'"
proof -
  from assms obtain s1 s2 where t: "terminateDrag s = Inr s1" and sel: "select b s1 = Inr s2"
    and s': "s' = (if \<not> movable (blocks s2 b) then s2
                   else s2\<lparr>dragMode := 1, onMouseUpWrapper := Some b,
                           onMouseMoveWrapper := Some b\<rparr>)"
    by (auto simp: onMouseDown_def split: option.splits sum.splits if_splits)
  from sel have "selected s2 = Some b" "blocks s2 = blocks s1"
    by (auto simp: select_def split: option.splits sum.splits)
  moreover from terminateDrag_keeps [OF t] assms(2) have "movable (blocks s1 b)" by simp
  ultimately show ?thesis using s' by (simp add: dragging_def)
qed

text \<open>
  When the block being dragged is disposed while it is still the selected block,
  \<open>dispose\<close> itself ends the session: it unbinds both handlers and resets the drag
  mode, and the pointer release that follows reaches no handler.
\<close>

lemma dispose_selected_ends_drag:
  assumes "dragging b s" and "dispose b healStack animate s = Inr s'"
  shows "onMouseUpWrapper s' = None \<and> onMouseMoveWrapper s' = None \<and> dragMode s' = 0
         \<and> workspace (blocks s' b) = None \<and> mouseup e s' = Inr s'"
proof -
  from assms obtain s1 where t: "terminateDrag s = Inr s1"
    by (auto simp: dispose_def dragging_def split: sum.splits)
  then have "onMouseUpWrapper s1 = None \<and> onMouseMoveWrapper s1 = None \<and> dragMode s1 = 0"
    by (simp add: terminateDrag_keeps)
  with assms t show ?thesis
    by (auto simp: dispose_def superClass_dispose_def dragging_def mouseup_def
        split: option.splits sum.splits if_splits)
qed

text \<open>
  C10 at a failing input. The pointer is pressed on block 7 and a drag starts; block 8
  is selected; block 7 is disposed. \<open>dispose\<close> unbinds the handlers only when the
  block is the selected one, so they stay bound to block 7, which has lost its
  workspace. The release runs \<open>onMouseUp_\<close> on it: no check for a deleted block is
  made, and reading \<open>this.workspace.isDeleteArea\<close> raises a \<open>TypeError\<close>.
\<close>

theorem mouseup_after_dispose_throws:
  "onMouseDown 7 ev idle = Inr midDrag
   \<and> select 8 midDrag = Inr reselected
   \<and> (\<exists>s'. dispose 7 False False reselected = Inr s'
          \<and> onMouseUpWrapper s' = Some 7 \<and> dragMode s' = 1
          \<and> workspace (blocks s' 7) = None
          \<and> mouseup ev s' = Inl TypeError)"
proof -
  have m: "onMouseDown 7 ev idle = Inr midDrag"
    by (simp add: onMouseDown_def terminateDrag_def select_def midDrag_def idle_def
        liveBlock_def ev_def Let_def)
  have s: "select 8 midDrag = Inr reselected"
    by (simp add: select_def reselected_def midDrag_def idle_def liveBlock_def)
  let ?s' = "superClass_dispose 7 False
               (reselected\<lparr>blocks := (blocks reselected)
                              (7 := (blocks reselected 7)\<lparr>rendered := False\<rparr>)\<rparr>)"
  have d: "dispose 7 False False reselected = Inr ?s'"
    by (simp add: dispose_def reselected_def midDrag_def idle_def)
  have "onMouseUpWrapper ?s' = Some 7 \<and> dragMode ?s' = 1 \<and> workspace (blocks ?s' 7) = None
        \<and> mouseup ev ?s' = Inl TypeError"
    by (simp add: superClass_dispose_def mouseup_def onMouseUp_def terminateDrag_def
        reselected_def midDrag_def idle_def liveBlock_def Let_def)
  with m s d show ?thesis by blast
qed

section \<open>Properties of the proximity scan\<close>

lemma closest_None:
  "neighbour_connection (closest candidates m r dx dy) = None \<longleftrightarrow>
     (\<forall>c \<in> set (candidates m). \<not> distanceFrom m dx dy c < r)"
  by (auto simp: closest_def Let_def filter_empty_conv)

lemma closest_Some:
  assumes "neighbour_connection (closest candidates m r dx dy) = Some c"
  shows "c \<in> set (candidates m)" "distanceFrom m dx dy c < r"
    "neighbour_radius (closest candidates m r dx dy) = distanceFrom m dx dy c"
    "\<And>c'. c' \<in> set (candidates m) \<Longrightarrow> distanceFrom m dx dy c \<le> distanceFrom m dx dy c'"
proof -
  let ?d = "distanceFrom m dx dy"
  let ?xs = "filter (\<lambda>c. ?d c < r) (candidates m)"
  from assms have ne: "?xs \<noteq> []" and c: "c = arg_min_list ?d ?xs"
    by (auto simp: closest_def Let_def split: if_splits)
  from ne c have "c \<in> set ?xs" using arg_min_list_in [of ?xs ?d] by simp
  then show in1: "c \<in> set (candidates m)" and lt: "?d c < r" by auto
  show "neighbour_radius (closest candidates m r dx dy) = ?d c"
    using ne c by (simp add: closest_def Let_def)
  show "?d c \<le> ?d c'" if "c' \<in> set (candidates m)" for c'
  proof (cases "?d c' < r")
    case True
    then have "c' \<in> set ?xs" using that by simp
    then have "Min (?d ` set ?xs) \<le> ?d c'" by simp
    then show ?thesis using f_arg_min_list_f [OF ne, of ?d] c by simp
  next
    case False
    with lt show ?thesis by simp
  qed
qed

text \<open>The state of the scan after the loop, from any state before it.\<close>

lemma scanConnections_result:
  fixes candidates dx dy
  defines "d \<equiv> distanceFrom"
  shows
  "((\<forall>m \<in> set ms. \<forall>c \<in> set (candidates m). \<not> d m dx dy c < radiusConnection st)
      \<and> scanConnections candidates dx dy ms st = st)
   \<or> (\<exists>m \<in> set ms. \<exists>c \<in> set (candidates m).
         closestConnection (scanConnections candidates dx dy ms st) = Some c
         \<and> scan_localConnection (scanConnections candidates dx dy ms st) = Some m
         \<and> radiusConnection (scanConnections candidates dx dy ms st) = d m dx dy c
         \<and> d m dx dy c < radiusConnection st
         \<and> (\<forall>m' \<in> set ms. \<forall>c' \<in> set (candidates m'). d m dx dy c \<le> d m' dx dy c'))"
  (is "?none ms st \<or> ?some ms st")
proof (induction ms arbitrary: st)
  case Nil
  show ?case by simp
next
  case (Cons m ms)
  let ?nb = "closest candidates m (radiusConnection st) dx dy"
  show ?case
  proof (cases "neighbour_connection ?nb")
    case None
    then have none: "\<And>c. c \<in> set (candidates m) \<Longrightarrow> \<not> d m dx dy c < radiusConnection st"
      by (simp add: closest_None d_def)
    have step: "scanConnections candidates dx dy (m # ms) st =
                scanConnections candidates dx dy ms st"
      using None by (simp add: Let_def)
    from Cons.IH [of st] show ?thesis
    proof
      assume "?none ms st"
      with none have "?none (m # ms) st" unfolding step by simp
      then show ?thesis ..
    next
      assume "?some ms st"
      then obtain m1 c1 where m1: "m1 \<in> set ms" "c1 \<in> set (candidates m1)"
        and r: "closestConnection (scanConnections candidates dx dy ms st) = Some c1"
          "scan_localConnection (scanConnections candidates dx dy ms st) = Some m1"
          "radiusConnection (scanConnections candidates dx dy ms st) = d m1 dx dy c1"
        and lt: "d m1 dx dy c1 < radiusConnection st"
        and least: "\<And>m' c'. m' \<in> set ms \<Longrightarrow> c' \<in> set (candidates m') \<Longrightarrow>
                      d m1 dx dy c1 \<le> d m' dx dy c'"
        by blast
      have "d m1 dx dy c1 \<le> d m dx dy c'" if "c' \<in> set (candidates m)" for c'
        using none [OF that] lt by simp
      with least have "\<forall>m' \<in> set (m # ms). \<forall>c' \<in> set (candidates m').
                          d m1 dx dy c1 \<le> d m' dx dy c'"
        by simp
      with m1 r lt have "?some (m # ms) st" unfolding step by auto
      then show ?thesis ..
    qed
  next
    case (Some c)
    note cs = closest_Some [OF Some, folded d_def]
    let ?st1 = "\<lparr>closestConnection = Some c, scan_localConnection = Some m,
                 radiusConnection = neighbour_radius ?nb\<rparr>"
    have step: "scanConnections candidates dx dy (m # ms) st =
                scanConnections candidates dx dy ms ?st1"
      using Some by (simp add: Let_def)
    have r1: "radiusConnection ?st1 = d m dx dy c" using cs(3) by simp
    from Cons.IH [of ?st1] show ?thesis
    proof
      assume a: "?none ms ?st1"
      then have "\<forall>m' \<in> set (m # ms). \<forall>c' \<in> set (candidates m').
                   d m dx dy c \<le> d m' dx dy c'"
        using cs(4) unfolding r1 by (simp add: not_less)
      moreover from a have "scanConnections candidates dx dy (m # ms) st = ?st1"
        unfolding step by simp
      ultimately have "?some (m # ms) st"
        using cs(1,2) r1 by auto
      then show ?thesis ..
    next
      assume "?some ms ?st1"
      then obtain m1 c1 where m1: "m1 \<in> set ms" "c1 \<in> set (candidates m1)"
        and r: "closestConnection (scanConnections candidates dx dy ms ?st1) = Some c1"
          "scan_localConnection (scanConnections candidates dx dy ms ?st1) = Some m1"
          "radiusConnection (scanConnections candidates dx dy ms ?st1) = d m1 dx dy c1"
        and lt: "d m1 dx dy c1 < d m dx dy c"
        and least: "\<And>m' c'. m' \<in> set ms \<Longrightarrow> c' \<in> set (candidates m') \<Longrightarrow>
                      d m1 dx dy c1 \<le> d m' dx dy c'"
        unfolding r1 by blast
      have "d m1 dx dy c1 \<le> d m dx dy c'" if "c' \<in> set (candidates m)" for c'
        using cs(4) [OF that] lt by simp
      with least have "\<forall>m' \<in> set (m # ms). \<forall>c' \<in> set (candidates m').
                          d m1 dx dy c1 \<le> d m' dx dy c'"
        by simp
      moreover have "d m1 dx dy c1 < radiusConnection st" using lt cs(2) by simp
      ultimately have "?some (m # ms) st" using m1 r unfolding step by auto
      then show ?thesis ..
    qed
  qed
qed


lemma updateHighlight_highlighted:
  "highlightedConnection (updateHighlight st s) = closestConnection st"
  by (cases "highlightedConnection s"; cases "closestConnection st")
     (auto simp: updateHighlight_def Let_def emit_def)

text \<open>
  C4: the connection selected by the scan of one pointer move lies strictly within
  \<open>SNAP_RADIUS\<close> of the own connection it is paired with, trial offset applied, and
  the retained radius is that distance; no pair of an own connection and one of its
  candidates is closer. The result is null exactly when no pair is strictly within
  the radius, and after the highlight update the highlighted connection is the one
  selected, so none is highlighted when the result is null.
\<close>

theorem proximityScan_nearest:
  "(\<forall>c. closestConnection (proximityScan R candidates ms dx dy) = Some c \<longrightarrow>
      (\<exists>m \<in> set ms. c \<in> set (candidates m)
         \<and> scan_localConnection (proximityScan R candidates ms dx dy) = Some m
         \<and> distanceFrom m dx dy c < R
         \<and> radiusConnection (proximityScan R candidates ms dx dy) = distanceFrom m dx dy c
         \<and> (\<forall>m' \<in> set ms. \<forall>c' \<in> set (candidates m').
               distanceFrom m dx dy c \<le> distanceFrom m' dx dy c')))
   \<and> ((closestConnection (proximityScan R candidates ms dx dy) = None) =
        (\<forall>m \<in> set ms. \<forall>c \<in> set (candidates m). \<not> distanceFrom m dx dy c < R))
   \<and> highlightedConnection (updateHighlight (proximityScan R candidates ms dx dy) s) =
        closestConnection (proximityScan R candidates ms dx dy)"
proof -
  let ?st0 = "\<lparr>closestConnection = None, scan_localConnection = None, radiusConnection = R\<rparr>"
  let ?r = "proximityScan R candidates ms dx dy"
  have r: "?r = scanConnections candidates dx dy ms ?st0"
    by (simp add: proximityScan_def)
  consider
    (none) "\<forall>m \<in> set ms. \<forall>c \<in> set (candidates m). \<not> distanceFrom m dx dy c < R" "?r = ?st0"
  | (some) m c where "m \<in> set ms" "c \<in> set (candidates m)"
      "closestConnection ?r = Some c" "scan_localConnection ?r = Some m"
      "radiusConnection ?r = distanceFrom m dx dy c" "distanceFrom m dx dy c < R"
      "\<forall>m' \<in> set ms. \<forall>c' \<in> set (candidates m').
         distanceFrom m dx dy c \<le> distanceFrom m' dx dy c'"
    using scanConnections_result [of ms candidates dx dy ?st0] unfolding r by auto
  then have "(\<forall>c. closestConnection ?r = Some c \<longrightarrow>
      (\<exists>m \<in> set ms. c \<in> set (candidates m)
         \<and> scan_localConnection ?r = Some m
         \<and> distanceFrom m dx dy c < R
         \<and> radiusConnection ?r = distanceFrom m dx dy c
         \<and> (\<forall>m' \<in> set ms. \<forall>c' \<in> set (candidates m').
               distanceFrom m dx dy c \<le> distanceFrom m' dx dy c')))
   \<and> ((closestConnection ?r = None) =
        (\<forall>m \<in> set ms. \<forall>c \<in> set (candidates m). \<not> distanceFrom m dx dy c < R))"
  proof cases
    case none
    then show ?thesis by simp
  next
    case some
    then show ?thesis by auto
  qed
  then show ?thesis by (simp add: updateHighlight_highlighted)
qed

lemma sqrt_examples: "sqrt 25 = 5" "sqrt 1600 = 40"
  by (rule real_sqrt_unique; simp)+

lemma distance_examples:
  "distanceFrom conn0 0 0 connNear = 5" "distanceFrom conn0 0 0 conn1 = 40"
  by (simp_all add: distanceFrom_def conn0_def conn1_def connNear_def sqrt_examples)

theorem proximityScan_nearest_witness:
  "closestConnection (proximityScan 20 offered [conn0] 0 0) = Some connNear
   \<and> scan_localConnection (proximityScan 20 offered [conn0] 0 0) = Some conn0
   \<and> radiusConnection (proximityScan 20 offered [conn0] 0 0) = 5
   \<and> distanceFrom conn0 0 0 connNear < 20
   \<and> distanceFrom conn0 0 0 connNear \<le> distanceFrom conn0 0 0 conn1
   \<and> closestConnection (proximityScan 5 offered [conn0] 0 0) = None"
proof -
  have c: "closestConnection (proximityScan 20 offered [conn0] 0 0) = Some connNear"
    by (simp add: proximityScan_def closest_def offered_def distance_examples Let_def)
  have n: "closestConnection (proximityScan 5 offered [conn0] 0 0) = None"
    by (simp add: proximityScan_def closest_def offered_def distance_examples Let_def)
  show ?thesis
    using proximityScan_nearest [of 20 offered "[conn0]" 0 0] c n
    by (simp add: offered_def distance_examples)
qed


section \<open>Properties of the deferred warning text\<close>

lemma map_of_filter_other:
  "k \<noteq> n \<Longrightarrow> map_of (filter (\<lambda>(n', t). n' \<noteq> n) xs) k = map_of xs k"
  by (induction xs) auto

lemma map_of_filter_same: "map_of (filter (\<lambda>(n', t). n' \<noteq> n) xs) n = None"
  by (induction xs) auto

lemma warnings_fields [simp]:
  "timers (deletePid n s) = timers s"
  "pid (deletePid n s) = filter (\<lambda>(n', t). n' \<noteq> n) (pid s)"
  "lastTimer (deletePid n s) = lastTimer s"
  "timers (clearTimeout t s) = filter (\<lambda>(t', task). t' \<noteq> t) (timers s)"
  "pid (clearTimeout t s) = pid s"
  "lastTimer (clearTimeout t s) = lastTimer s"
  by (simp_all add: deletePid_def clearTimeout_def)

lemma killAll_fields:
  "timers (foldl (\<lambda>s' (n, t). deletePid n (clearTimeout t s')) s xs) =
     filter (\<lambda>(t', task). t' \<notin> snd ` set xs) (timers s)
   \<and> pid (foldl (\<lambda>s' (n, t). deletePid n (clearTimeout t s')) s xs) =
       filter (\<lambda>(n', t). n' \<notin> fst ` set xs) (pid s)
   \<and> lastTimer (foldl (\<lambda>s' (n, t). deletePid n (clearTimeout t s')) s xs) = lastTimer s"
proof (induction xs arbitrary: s)
  case Nil
  show ?case by simp
next
  case (Cons x xs)
  obtain n t where x: "x = (n, t)" by (cases x)
  from Cons.IH [of "deletePid n (clearTimeout t s)"] show ?case
    by (auto simp: x intro!: filter_cong)
qed

lemma registered_killAll:
  assumes "registered s"
  shows "timers (foldl (\<lambda>s' (n, t). deletePid n (clearTimeout t s')) s (pid s)) = []"
    and "pid (foldl (\<lambda>s' (n, t). deletePid n (clearTimeout t s')) s (pid s)) = []"
proof -
  have "t \<in> snd ` set (pid s)" if "(t, task) \<in> set (timers s)" for t task
  proof -
    from assms that have "map_of (pid s) (task_id task) = Some t"
      by (auto simp: registered_def list_all_iff)
    then have "(task_id task, t) \<in> set (pid s)" by (rule map_of_SomeD)
    then show ?thesis by force
  qed
  then show "timers (foldl (\<lambda>s' (n, t). deletePid n (clearTimeout t s')) s (pid s)) = []"
    by (auto simp: killAll_fields filter_empty_conv)
  show "pid (foldl (\<lambda>s' (n, t). deletePid n (clearTimeout t s')) s (pid s)) = []"
    by (force simp: killAll_fields filter_empty_conv)
qed

text \<open>After the first part of \<open>setWarningText\<close> no pending timer carries the id.\<close>

lemma registered_cleared:
  assumes "registered s"
  shows "registered (cleared i s)"
    and "\<forall>(t, task) \<in> set (timers (cleared i s)). task_id task \<noteq> i"
    and "lastTimer (cleared i s) = lastTimer s"
proof -
  show "registered (cleared i s)"
  proof (cases "i = []")
    case True
    then show ?thesis
      using registered_killAll [OF assms]
      by (simp add: cleared_def registered_def)
  next
    case False
    show ?thesis
    proof (cases "map_of (pid s) i")
      case None
      with False assms show ?thesis by (simp add: cleared_def)
    next
      case (Some t)
      show ?thesis
      proof (cases "t = 0")
        case True
        with False Some assms show ?thesis by (simp add: cleared_def)
      next
        case nz: False
        have c: "cleared i s = deletePid i (clearTimeout t s)"
          using False Some nz by (simp add: cleared_def)
        have "map_of (pid (deletePid i (clearTimeout t s))) (task_id task) = Some t'"
          if "(t', task) \<in> set (timers s)" "t' \<noteq> t" for t' task
        proof -
          from assms that(1) have m: "map_of (pid s) (task_id task) = Some t'"
            by (auto simp: registered_def list_all_iff)
          with Some that(2) have "task_id task \<noteq> i" by auto
          with m show ?thesis
            by (simp add: map_of_filter_other)
        qed
        with assms show ?thesis
          unfolding c
          by (auto simp: registered_def list_all_iff distinct_map_filter)
      qed
    qed
  qed
  show "\<forall>(t, task) \<in> set (timers (cleared i s)). task_id task \<noteq> i"
  proof (cases "i = []")
    case True
    then show ?thesis using registered_killAll [OF assms] by (simp add: cleared_def)
  next
    case False
    have reg: "map_of (pid s) (task_id task) = Some t'"
      if "(t', task) \<in> set (timers s)" for t' task
      using assms that by (auto simp: registered_def list_all_iff)
    have pos: "0 < t'" if "(t', task) \<in> set (timers s)" for t' task
      using assms that by (auto simp: registered_def list_all_iff)
    show ?thesis
    proof (cases "map_of (pid s) i")
      case None
      with False reg show ?thesis by (fastforce simp: cleared_def)
    next
      case (Some t)
      show ?thesis
      proof (cases "t = 0")
        case True
        with False Some reg pos show ?thesis by (fastforce simp: cleared_def)
      next
        case nz: False
        with False Some reg show ?thesis
          by (fastforce simp: cleared_def)
      qed
    qed
  qed
  show "lastTimer (cleared i s) = lastTimer s"
    by (simp add: cleared_def killAll_fields split: option.splits)
qed

lemma setWarningText_cleared:
  "setWarningText mode this text opt_id s =
     (let i = (case opt_id of None \<Rightarrow> [] | Some i \<Rightarrow> i); s1 = cleared i s
      in if mode = 2
         then putPid i (Suc (lastTimer s1))
                (s1\<lparr>timers := timers s1 @ [(Suc (lastTimer s1),
                                \<lparr>task_block = this, task_text = text, task_id = i\<rparr>)],
                    lastTimer := Suc (lastTimer s1)\<rparr>)
         else s1\<lparr>applied := applied s1 @ [(this, text, i)]\<rparr>)"
  by (simp add: setWarningText_def cleared_def setTimeout_def Let_def)

lemma registered_setWarningText:
  assumes "registered s"
  shows "registered (setWarningText mode this text opt_id s)"
proof -
  define i where "i = (case opt_id of None \<Rightarrow> [] | Some i \<Rightarrow> i)"
  define s1 where "s1 = cleared i s"
  note c = registered_cleared [OF assms, of i, folded s1_def]
  show ?thesis
  proof (cases "mode = 2")
    case False
    with c(1) show ?thesis
      by (simp add: setWarningText_cleared Let_def i_def [symmetric] s1_def [symmetric]
          registered_def)
  next
    case True
    have fresh: "Suc (lastTimer s1) \<notin> fst ` set (timers s1)"
      using c(1) by (force simp: registered_def list_all_iff)
    have old: "map_of (filter (\<lambda>(n', t'). n' \<noteq> i) (pid s1) @ [(i, Suc (lastTimer s1))])
                 (task_id task) = Some t"
      if "(t, task) \<in> set (timers s1)" for t task
    proof -
      from c(2) that have "task_id task \<noteq> i" by auto
      moreover from c(1) that have "map_of (pid s1) (task_id task) = Some t"
        by (auto simp: registered_def list_all_iff)
      ultimately show ?thesis by (simp add: map_add_def map_of_filter_other)
    qed
    have new: "map_of (filter (\<lambda>(n', t'). n' \<noteq> i) (pid s1) @ [(i, Suc (lastTimer s1))]) i
                 = Some (Suc (lastTimer s1))"
      by (simp add: map_add_def map_of_filter_same)
    from True c(1) fresh old new show ?thesis
      by (auto simp: setWarningText_cleared Let_def i_def [symmetric] s1_def [symmetric]
          registered_def putPid_def list_all_iff)
  qed
qed

lemma registered_clearTimeout: "registered s \<Longrightarrow> registered (clearTimeout t s)"
  by (auto simp: registered_def list_all_iff distinct_map_filter)

lemma registered_fireTimer:
  assumes "registered s"
  shows "registered (fireTimer mode live t s)"
proof (cases "map_of (timers s) t")
  case None
  with assms show ?thesis by (simp add: fireTimer_def)
next
  case (Some task)
  let ?s1 = "clearTimeout t s"
  have r1: "registered ?s1" using assms by (rule registered_clearTimeout)
  show ?thesis
  proof (cases "live (task_block task)")
    case False
    with Some r1 show ?thesis by (simp add: fireTimer_def Let_def)
  next
    case True
    have "(t, task) \<in> set (timers s)" using Some by (rule map_of_SomeD)
    with assms have p: "map_of (pid s) (task_id task) = Some t"
      by (auto simp: registered_def list_all_iff)
    have "map_of (pid (deletePid (task_id task) ?s1)) (task_id task') = Some t'"
      if "(t', task') \<in> set (timers ?s1)" for t' task'
    proof -
      from that have in0: "(t', task') \<in> set (timers s)" and ne: "t' \<noteq> t"
        by auto
      from assms in0 have m: "map_of (pid s) (task_id task') = Some t'"
        by (auto simp: registered_def list_all_iff)
      with p ne have "task_id task' \<noteq> task_id task" by auto
      with m show ?thesis
        by (simp add: map_of_filter_other)
    qed
    with r1 have "registered (deletePid (task_id task) ?s1)"
      by (auto simp: registered_def list_all_iff)
    then show ?thesis
      using Some True by (simp add: fireTimer_def Let_def registered_setWarningText)
  qed
qed

lemma reachable_registered: "reachable s \<Longrightarrow> registered s"
proof (induction rule: reachable.induct)
  case start
  show ?case by (simp add: registered_def noWarnings_def)
next
  case (call s mode b msg opt_id)
  then show ?case by (simp add: registered_setWarningText)
next
  case (fire s mode live t)
  then show ?case by (simp add: registered_fireTimer)
qed

lemma registered_one_per_id:
  assumes "registered s"
  shows "length (filter (\<lambda>(t, task). task_id task = i) (timers s)) \<le> 1"
proof -
  let ?xs = "filter (\<lambda>(t, task). task_id task = i) (timers s)"
  have d: "distinct (map fst ?xs)"
    using assms by (simp add: registered_def distinct_map_filter)
  have same: "fst x = fst y" if "x \<in> set ?xs" "y \<in> set ?xs" for x y
  proof -
    from assms that have "map_of (pid s) i = Some (fst x)" "map_of (pid s) i = Some (fst y)"
      by (auto simp: registered_def list_all_iff)
    then show ?thesis by simp
  qed
  show ?thesis
  proof (cases ?xs)
    case Nil
    then show ?thesis by simp
  next
    case outer: (Cons x ys)
    have "ys = []"
    proof (cases ys)
      case Nil
      then show ?thesis .
    next
      case (Cons y zs)
      with outer have "x \<in> set ?xs" "y \<in> set ?xs" by simp_all
      then have "fst x = fst y" by (rule same)
      with d outer Cons show ?thesis by simp
    qed
    with outer show ?thesis by simp
  qed
qed

text \<open>
  The half of C9 that holds: at any time at most one deferred update is pending for
  a block and a warning id (indeed for a warning id, whatever the block).
\<close>

lemma pending_at_most_one: "reachable s \<Longrightarrow> length (pending b i s) \<le> 1"
proof -
  assume "reachable s"
  then have r: "registered s" by (rule reachable_registered)
  let ?ys = "filter (\<lambda>(t, task). task_id task = i) (timers s)"
  have "pending b i s = filter (\<lambda>(t, task). task_block task = b) ?ys"
    by (auto simp: pending_def intro!: filter_cong)
  moreover have "length (filter (\<lambda>(t, task). task_block task = b) ?ys) \<le> length ?ys"
    by (rule length_filter_le)
  ultimately show ?thesis
    using registered_one_per_id [OF r, of i] by simp
qed


text \<open>
  C9 at a failing input. During a free drag block 7 defers an update for warning id
  \<open>a\<close>; it is pending. Block 8 then sets its own warning text, under the same id or
  under none: the pending update of block 7 is cancelled, because both blocks look the
  timer up in the one object that hangs on the shared function.
\<close>

theorem setWarningText_cancels_other_block:
  "pending 7 ''a'' (setWarningText 2 7 (Some ''check the input'') (Some ''a'') noWarnings)
     = [(1, firstTask)]
   \<and> pending 7 ''a''
       (setWarningText 2 8 (Some ''other'') (Some ''a'')
          (setWarningText 2 7 (Some ''check the input'') (Some ''a'') noWarnings)) = []
   \<and> pending 7 ''a''
       (setWarningText 2 8 (Some ''other'') None
          (setWarningText 2 7 (Some ''check the input'') (Some ''a'') noWarnings)) = []"
  by (simp add: pending_def setWarningText_def noWarnings_def setTimeout_def putPid_def
      deletePid_def clearTimeout_def firstTask_def Let_def)


end
